theory Spec2Isabelle
  imports Complex_Main
begin

section \<open>The juggling simulator: data model\<close>

text \<open>
  The embedding follows \<^verbatim>\<open>juggling_sim.py\<close>. Python floats are modelled as exact reals;
  the one float operation of the per-step update that has no real value, a division whose
  divisor is zero, yields a non-finite value of \<open>npfloat\<close>, as numpy's float64 division does
  (it warns and returns nan or an infinity, it does not raise).
\<close>

subsection \<open>Global parameters\<close>

definition T_beat :: real where
  "T_beat = 1 / 2"

definition g :: real where
  "g = 98 / 10"

definition throw_delay :: real where
  "throw_delay = 1 / 4"

datatype hand = R | L

fun hand_positions :: "hand \<Rightarrow> real \<times> real" where
  "hand_positions R = (1, 0)"
| "hand_positions L = (- 1, 0)"

subsection \<open>Python and numpy primitives\<close>

text \<open>
  The exceptions of the Python run time that the modelled code can raise.
  \<open>EmptyPatternError\<close> is the name the specification gives to the failure on an empty
  pattern; no statement of the source raises it.
\<close>

datatype error = ZeroDivisionError | IndexError | TypeError | EmptyPatternError

text \<open>A float64 held in a numpy array or produced by a numpy division.\<close>

datatype npfloat = Fin real | NaN | PInf | NInf

type_synonym vec = "npfloat \<times> npfloat"

definition arr :: "real \<times> real \<Rightarrow> vec" where
  "arr p = (Fin (fst p), Fin (snd p))"

text \<open>\<open>a / b\<close> for a numpy float64 \<open>a\<close> and a divisor that is never a negative zero.\<close>

definition np_div :: "real \<Rightarrow> real \<Rightarrow> npfloat" where
  "np_div a b =
     (if b \<noteq> 0 then Fin (a / b)
      else if a = 0 then NaN
      else if 0 < a then PInf else NInf)"

fun np_mul :: "npfloat \<Rightarrow> real \<Rightarrow> npfloat" where
  "np_mul (Fin a) t = Fin (a * t)"
| "np_mul NaN t = NaN"
| "np_mul PInf t = (if t = 0 then NaN else if 0 < t then PInf else NInf)"
| "np_mul NInf t = (if t = 0 then NaN else if 0 < t then NInf else PInf)"

fun np_add :: "real \<Rightarrow> npfloat \<Rightarrow> npfloat" where
  "np_add a (Fin c) = Fin (a + c)"
| "np_add a v = v"

text \<open>Python's \<open>round\<close> on a float: to the nearest integer, a tie to the even one.\<close>

definition py_round :: "real \<Rightarrow> int" where
  "py_round x =
     (let f = \<lfloor>x\<rfloor>; d = x - of_int f
      in if d < 1 / 2 then f
         else if 1 / 2 < d then f + 1
         else if even f then f else f + 1)"

text \<open>Python's \<open>int\<close> on a float: truncation towards zero.\<close>

definition py_int :: "real \<Rightarrow> int" where
  "py_int x = (if 0 \<le> x then \<lfloor>x\<rfloor> else \<lceil>x\<rceil>)"

text \<open>
  Indexing a list: \<open>xs[i]\<close> for \<open>i\<close> from \<open>-len(xs)\<close> up to \<open>len(xs) - 1\<close>, where
  \<open>xs[-k]\<close> is the \<open>k\<close>-th element from the end; any other index raises.
\<close>

definition py_index :: "'a list \<Rightarrow> int \<Rightarrow> error + 'a" where
  "py_index xs i =
     (if 0 \<le> i \<and> i < int (length xs) then Inr (xs ! nat i)
      else if - int (length xs) \<le> i \<and> i < 0 then Inr (xs ! nat (int (length xs) + i))
      else Inl IndexError)"

subsection \<open>The ball class\<close>

datatype bstate = in_hand | in_air

text \<open>
  The attributes \<open>throw\<close> assigns. \<open>__init__\<close> sets all seven to \<open>None\<close> and \<open>throw\<close>
  assigns all seven, so they are unset or set together: \<open>flight\<close> is \<open>None\<close> until the
  first throw.
\<close>

record flight =
  start_time :: real
  flight_time :: real
  catch_time :: real
  start_pos :: "real \<times> real"
  vx :: npfloat
  vy :: real
  dest_hand :: hand

record ball =
  ball_id :: int
  next_throw_time :: real
  hand :: hand
  state :: bstate
  pos :: vec
  flight :: "flight option"

definition Ball_init :: "int \<Rightarrow> real \<Rightarrow> hand \<Rightarrow> ball" where
  "Ball_init i t h =
     \<lparr>ball_id = i, next_throw_time = t, hand = h, state = in_hand,
      pos = arr (hand_positions h), flight = None\<rparr>"

definition throw :: "ball \<Rightarrow> real \<Rightarrow> int list \<Rightarrow> int \<Rightarrow> error + ball" where
  "throw b current_time siteswap period =
     (let beat = py_round (next_throw_time b / T_beat)
      in if period = 0 then Inl ZeroDivisionError
         else case py_index siteswap (beat mod period) of
           Inl e \<Rightarrow> Inl e
         | Inr throw_value \<Rightarrow>
             let ft = of_int throw_value * T_beat;
                 ct = current_time + ft;
                 source_hand = hand b;
                 source_pos = hand_positions source_hand;
                 dest = (if throw_value mod 2 = 1
                         then (if source_hand = R then L else R)
                         else source_hand);
                 dest_pos = hand_positions dest
             in Inr (b\<lparr>flight := Some
                      \<lparr>start_time = current_time, flight_time = ft, catch_time = ct,
                       start_pos = source_pos,
                       vx = np_div (fst dest_pos - fst source_pos) ft,
                       vy = (1 / 2) * g * ft,
                       dest_hand = dest\<rparr>,
                    state := in_air\<rparr>))"

text \<open>The projectile position \<open>update\<close> computes for a ball in the air, \<open>t\<close> after launch.\<close>

definition flight_pos :: "flight \<Rightarrow> real \<Rightarrow> vec" where
  "flight_pos f t =
     (np_add (fst (start_pos f)) (np_mul (vx f) t),
      Fin (snd (start_pos f) + vy f * t - (1 / 2) * g * t\<^sup>2))"

definition update :: "ball \<Rightarrow> real \<Rightarrow> int list \<Rightarrow> int \<Rightarrow> error + ball" where
  "update b current_time siteswap period =
     (if state b = in_air then
        (case flight b of
           None \<Rightarrow> Inl TypeError
         | Some f \<Rightarrow>
             let t = current_time - start_time f
             in if t < flight_time f then Inr (b\<lparr>pos := flight_pos f t\<rparr>)
                else Inr (b\<lparr>state := in_hand, hand := dest_hand f,
                            pos := arr (hand_positions (dest_hand f)),
                            next_throw_time := catch_time f\<rparr>))
      else if current_time \<ge> next_throw_time b + throw_delay
        then throw b current_time siteswap period
        else Inr (b\<lparr>pos := arr (hand_positions (hand b))\<rparr>))"

subsection \<open>The main program: pattern and balls\<close>

text \<open>The input is taken to be ASCII: the digits are the characters \<open>0\<close> to \<open>9\<close>.\<close>

definition isdigit :: "char \<Rightarrow> bool" where
  "isdigit ch = (48 \<le> (of_char ch :: nat) \<and> (of_char ch :: nat) \<le> 57)"

definition digit_value :: "char \<Rightarrow> int" where
  "digit_value ch = int (of_char ch) - 48"

definition parse_siteswap :: "string \<Rightarrow> int list" where
  "parse_siteswap siteswap_input = map digit_value (filter isdigit siteswap_input)"

definition num_balls :: "int list \<Rightarrow> int \<Rightarrow> error + int" where
  "num_balls siteswap period =
     (if period = 0 then Inl ZeroDivisionError
      else Inr (py_int (of_int (sum_list siteswap) / of_int period)))"

definition make_balls :: "int \<Rightarrow> ball list" where
  "make_balls n =
     map (\<lambda>i. Ball_init (int i) (of_nat i * T_beat) (if i mod 2 = 0 then R else L)) [0..<nat n]"

text \<open>The pattern, its period and the balls, or the exception that ends the program.\<close>

definition initialize :: "string \<Rightarrow> error + (int list \<times> int \<times> ball list)" where
  "initialize siteswap_input =
     (let siteswap = parse_siteswap siteswap_input;
          period = int (length siteswap)
      in case num_balls siteswap period of
           Inl e \<Rightarrow> Inl e
         | Inr n \<Rightarrow> Inr (siteswap, period, make_balls n))"

text \<open>The calls \<open>update_frame\<close> makes on one ball, at the successive simulation times.\<close>

fun updates :: "ball \<Rightarrow> real list \<Rightarrow> int list \<Rightarrow> int \<Rightarrow> error + ball" where
  "updates b [] siteswap period = Inr b"
| "updates b (t # ts) siteswap period =
     (case update b t siteswap period of
        Inl e \<Rightarrow> Inl e
      | Inr b' \<Rightarrow> updates b' ts siteswap period)"

text \<open>
  The values \<open>sim_time\<close> takes in the first \<open>n\<close> calls of \<open>update_frame\<close>: it starts
  at \<open>0.0\<close> and grows by \<open>dt\<close> before the balls are updated.
\<close>

definition dt :: real where
  "dt = 1 / 50"

definition frame_times :: "nat \<Rightarrow> real list" where
  "frame_times n = map (\<lambda>k. of_nat k * dt) [1..<Suc n]"

subsection \<open>Derived notions used in the statements and proofs\<close>

text \<open>
  The invariant of a ball: its flight attributes are set whenever it is in the air, the
  stored catch time is the launch time plus the flight time, the flight time is not
  negative, and a ball in the air was released no earlier than its scheduled throw time
  plus the release delay.
\<close>

definition flight_ok :: "ball \<Rightarrow> bool" where
  "flight_ok b =
     (case flight b of
        None \<Rightarrow> state b = in_hand
      | Some f \<Rightarrow>
          catch_time f = start_time f + flight_time f \<and> 0 \<le> flight_time f
          \<and> (state b = in_hand \<or> next_throw_time b + throw_delay \<le> start_time f))"

text \<open>The ball \<open>throw\<close> leaves behind when the throw value it looks up is \<open>v\<close>.\<close>

definition thrown :: "ball \<Rightarrow> real \<Rightarrow> int \<Rightarrow> ball" where
  "thrown b t v =
     b\<lparr>flight := Some
         \<lparr>start_time = t, flight_time = of_int v * T_beat,
          catch_time = t + of_int v * T_beat,
          start_pos = hand_positions (hand b),
          vx = np_div (fst (hand_positions
                              (if odd v then (if hand b = R then L else R) else hand b))
                        - fst (hand_positions (hand b)))
                 (of_int v * T_beat),
          vy = (1 / 2) * g * (of_int v * T_beat),
          dest_hand = (if odd v then (if hand b = R then L else R) else hand b)\<rparr>,
       state := in_air\<rparr>"

section \<open>Helper lemmas on the primitives\<close>

lemma py_round_nearest: "\<bar>of_int (py_round x) - x\<bar> \<le> 1 / 2"
  unfolding py_round_def Let_def by (auto; linarith)

lemma parse_siteswap_range:
  assumes "v \<in> set (parse_siteswap s)"
  shows "0 \<le> v \<and> v \<le> 9"
  using assms by (auto simp: parse_siteswap_def isdigit_def digit_value_def)

lemma sum_list_nonneg_int: "(\<And>v. v \<in> set xs \<Longrightarrow> (0::int) \<le> v) \<Longrightarrow> 0 \<le> sum_list xs"
  by (induction xs) auto

lemma py_int_quotient:
  assumes "0 \<le> a" "0 < p"
  shows "py_int (of_int a / of_int p) = a div p"
proof -
  have "(0::real) \<le> of_int a / of_int p" using assms by simp
  then show ?thesis by (simp add: py_int_def floor_divide_of_int_eq)
qed

lemma py_index_in_range:
  assumes "0 \<le> i" "i < int (length xs)"
  shows "py_index xs i = Inr (xs ! nat i)"
  using assms by (simp add: py_index_def)

lemma throw_value_lookup:
  assumes "siteswap \<noteq> []" "period = int (length siteswap)"
  shows "py_index siteswap (k mod period) = Inr (siteswap ! nat (k mod period))"
proof -
  have "0 < period" using assms by simp
  then have "0 \<le> k mod period" "k mod period < period" by simp_all
  then show ?thesis using assms(2) by (simp add: py_index_in_range)
qed

section \<open>The pattern interpreter\<close>

text \<open>
  C2 (amended): when the input has no digit, initialization fails before any ball is
  created, and the failure is Python's \<open>ZeroDivisionError\<close>, raised by
  \<open>sum(siteswap) / period\<close>; the result carries no pattern and no ball.
\<close>

theorem empty_pattern_fails:
  assumes "parse_siteswap s = []"
  shows "initialize s = Inl ZeroDivisionError"
  using assms by (simp add: initialize_def num_balls_def)

theorem empty_pattern_fails_witness:
  "parse_siteswap ''ab'' = [] \<and> initialize ''ab'' = Inl ZeroDivisionError"
proof -
  have h: "parse_siteswap ''ab'' = []" by (simp add: parse_siteswap_def isdigit_def)
  show ?thesis using h empty_pattern_fails [OF h] by simp
qed

text \<open>
  C2 as stated fails: on the empty input the error is not the named
  \<open>EmptyPatternError\<close>.
\<close>

theorem empty_pattern_error_counterexample:
  "parse_siteswap '''' = [] \<and> initialize '''' \<noteq> Inl EmptyPatternError"
  by (simp add: initialize_def parse_siteswap_def num_balls_def)

text \<open>
  C7: for a non-empty pattern of digits, \<open>num_balls\<close> is the truncating integer
  quotient of the sum of the throw values by the period; when the period divides the sum,
  the sum is the period times \<open>num_balls\<close>; and otherwise initialization still
  succeeds, creating the truncated number of balls.
\<close>

theorem num_balls_truncating_division:
  assumes "siteswap = parse_siteswap s" "siteswap \<noteq> []" "period = int (length siteswap)"
  shows "num_balls siteswap period = Inr (sum_list siteswap div period)
    \<and> (period dvd sum_list siteswap \<longrightarrow>
         sum_list siteswap = period * (sum_list siteswap div period))
    \<and> initialize s = Inr (siteswap, period, make_balls (sum_list siteswap div period))
    \<and> int (length (make_balls (sum_list siteswap div period))) = sum_list siteswap div period"
proof -
  have p: "0 < period" using assms by simp
  have s: "0 \<le> sum_list siteswap"
    using assms(1) parse_siteswap_range by (intro sum_list_nonneg_int) blast
  have n: "num_balls siteswap period = Inr (sum_list siteswap div period)"
    using p s by (simp add: num_balls_def py_int_quotient)
  have "0 \<le> sum_list siteswap div period" using p s by (simp add: pos_imp_zdiv_nonneg_iff)
  then have l: "int (length (make_balls (sum_list siteswap div period)))
      = sum_list siteswap div period"
    by (simp add: make_balls_def)
  have i: "initialize s = Inr (siteswap, period, make_balls (sum_list siteswap div period))"
    using n assms by (simp add: initialize_def Let_def)
  show ?thesis using n l i by simp
qed

lemma parse_52: "parse_siteswap ''52'' = [5, 2]"
  by (simp add: parse_siteswap_def isdigit_def digit_value_def)

lemma parse_333: "parse_siteswap ''333'' = [3, 3, 3]"
  by (simp add: parse_siteswap_def isdigit_def digit_value_def)

theorem num_balls_truncating_division_witness:
  "num_balls [3, 3, 3] 3 = Inr 3 \<and> sum_list [3, 3, 3 :: int] = 3 * 3
   \<and> num_balls [5, 2] 2 = Inr 3 \<and> sum_list [5, 2 :: int] = 7
   \<and> length (make_balls 3) = 3"
  using num_balls_truncating_division [of "[3, 3, 3]" "''333''" 3]
    num_balls_truncating_division [of "[5, 2]" "''52''" 2]
  by (simp add: parse_333 parse_52)

section \<open>The ball state machine\<close>

lemma py_index_member: "py_index xs i = Inr v \<Longrightarrow> v \<in> set xs"
  by (auto simp: py_index_def split: if_splits)

lemma throw_cases:
  "throw b t siteswap period =
    (if period = 0 then Inl ZeroDivisionError
     else case py_index siteswap (py_round (next_throw_time b / T_beat) mod period) of
       Inl e \<Rightarrow> Inl e
     | Inr v \<Rightarrow> Inr (thrown b t v))"
  unfolding throw_def thrown_def Let_def odd_iff_mod_2_eq_one ..

lemma thrown_fields:
  "state (thrown b t v) = in_air"
  "hand (thrown b t v) = hand b"
  "next_throw_time (thrown b t v) = next_throw_time b"
  "pos (thrown b t v) = pos b"
  "ball_id (thrown b t v) = ball_id b"
  by (simp_all add: thrown_def)

lemma thrown_flight:
  "\<exists>f. flight (thrown b t v) = Some f \<and> start_time f = t
     \<and> flight_time f = of_int v * T_beat \<and> catch_time f = t + of_int v * T_beat
     \<and> start_pos f = hand_positions (hand b)
     \<and> dest_hand f = (if odd v then (if hand b = R then L else R) else hand b)
     \<and> vx f = np_div (fst (hand_positions (dest_hand f)) - fst (hand_positions (hand b)))
                (flight_time f)
     \<and> vy f = (1 / 2) * g * flight_time f"
  by (simp add: thrown_def)

lemma thrown_zero_divisor:
  assumes "flight (thrown b t v) = Some f"
  shows "flight_time f = 0 \<longleftrightarrow> v = 0"
  using assms by (auto simp: thrown_def T_beat_def)

lemma held_update_cases:
  assumes "state b = in_hand"
  shows "update b t siteswap period =
    (if next_throw_time b + throw_delay \<le> t then throw b t siteswap period
     else Inr (b\<lparr>pos := arr (hand_positions (hand b))\<rparr>))"
  using assms by (simp add: update_def)

lemma throw_eq:
  assumes "siteswap \<noteq> []" "period = int (length siteswap)"
  shows "throw b t siteswap period =
    Inr (thrown b t (siteswap ! nat (py_round (next_throw_time b / T_beat) mod period)))"
proof -
  have p: "period \<noteq> 0" using assms by simp
  show ?thesis
    using p throw_value_lookup [OF assms] by (simp add: throw_cases)
qed

lemma throw_Inr:
  assumes "throw b t siteswap period = Inr b'"
  shows "\<exists>v\<in>set siteswap. b' = thrown b t v"
proof -
  have p: "period \<noteq> 0" using assms by (auto simp: throw_cases)
  then obtain v
    where v: "py_index siteswap (py_round (next_throw_time b / T_beat) mod period) = Inr v"
    using assms by (cases "py_index siteswap (py_round (next_throw_time b / T_beat) mod period)")
      (simp_all add: throw_cases)
  then have "b' = thrown b t v" using assms p by (simp add: throw_cases)
  then show ?thesis using py_index_member [OF v] by blast
qed

text \<open>
  C3: for a held ball of an initialized pattern, \<open>update\<close> at time \<open>t\<close> puts the ball in
  the air if and only if \<open>t\<close> is at least the scheduled throw time plus the release delay;
  otherwise the position is the fixed position of the ball's hand and the state, the hand
  and the scheduled throw time are unchanged.
\<close>

theorem held_update_transition:
  assumes "state b = in_hand" "siteswap \<noteq> []" "period = int (length siteswap)"
  shows "\<exists>b'. update b t siteswap period = Inr b'
    \<and> (state b' = in_air \<longleftrightarrow> next_throw_time b + throw_delay \<le> t)
    \<and> (\<not> next_throw_time b + throw_delay \<le> t \<longrightarrow>
         pos b' = arr (hand_positions (hand b)) \<and> state b' = in_hand
         \<and> hand b' = hand b \<and> next_throw_time b' = next_throw_time b)"
proof (cases "next_throw_time b + throw_delay \<le> t")
  case True
  show ?thesis using True assms(1)
    by (simp add: held_update_cases throw_eq [OF assms(2,3)] thrown_fields)
next
  case False
  then show ?thesis using assms(1) by (simp add: held_update_cases)
qed

theorem held_update_transition_witness:
  "(\<exists>b'. update (Ball_init 0 0 R) (1 / 4) [3] 1 = Inr b' \<and> state b' = in_air)
   \<and> (\<exists>b'. update (Ball_init 0 0 R) (1 / 5) [3] 1 = Inr b' \<and> state b' = in_hand
         \<and> pos b' = (Fin 1, Fin 0) \<and> hand b' = R \<and> next_throw_time b' = 0)"
  using held_update_transition [of "Ball_init 0 0 R" "[3]" 1 "1 / 4"]
    held_update_transition [of "Ball_init 0 0 R" "[3]" 1 "1 / 5"]
  by (auto simp add: Ball_init_def throw_delay_def arr_def)

lemma Ball_flight_ok: "flight_ok (Ball_init i t h)"
  by (simp add: flight_ok_def Ball_init_def)

lemma thrown_flight_ok:
  assumes "0 \<le> v" "next_throw_time b + throw_delay \<le> t"
  shows "flight_ok (thrown b t v)"
proof -
  have "0 \<le> real_of_int v * T_beat" using assms(1) by (simp add: T_beat_def)
  then show ?thesis using assms(2) by (simp add: flight_ok_def thrown_def)
qed

lemma throw_flight_ok:
  assumes "\<forall>v\<in>set siteswap. 0 \<le> v" "next_throw_time b + throw_delay \<le> t"
    and "throw b t siteswap period = Inr b'"
  shows "flight_ok b'"
  using throw_Inr [OF assms(3)] assms(1,2) thrown_flight_ok by blast

lemma update_flight_ok:
  assumes "flight_ok b" "\<forall>v\<in>set siteswap. 0 \<le> v"
    and "update b t siteswap period = Inr b'"
  shows "flight_ok b'"
proof (cases "state b")
  case in_air
  then show ?thesis
    using assms(1,3)
    by (auto simp: update_def Let_def flight_ok_def split: option.splits if_splits)
next
  case in_hand
  show ?thesis
  proof (cases "next_throw_time b + throw_delay \<le> t")
    case True
    then have "throw b t siteswap period = Inr b'"
      using assms(3) in_hand by (simp add: held_update_cases)
    then show ?thesis using throw_flight_ok [OF assms(2) True] by simp
  next
    case False
    then have "b' = b\<lparr>pos := arr (hand_positions (hand b))\<rparr>"
      using assms(3) in_hand by (simp add: held_update_cases)
    then show ?thesis using assms(1) by (simp add: flight_ok_def split: option.splits)
  qed
qed

lemma updates_flight_ok:
  assumes "flight_ok b" "\<forall>v\<in>set siteswap. 0 \<le> v"
    and "updates b ts siteswap period = Inr b'"
  shows "flight_ok b'"
  using assms(1,3)
proof (induction ts arbitrary: b)
  case Nil
  then show ?case by simp
next
  case (Cons t ts)
  then obtain b1 where 1: "update b t siteswap period = Inr b1"
    and 2: "updates b1 ts siteswap period = Inr b'"
    by (auto split: sum.splits)
  have "flight_ok b1" using update_flight_ok [OF Cons.prems(1) assms(2) 1] .
  then show ?case using Cons.IH 2 by simp
qed

lemma initialize_result:
  assumes "initialize s = Inr (siteswap, period, balls)"
  shows "siteswap = parse_siteswap s \<and> siteswap \<noteq> [] \<and> period = int (length siteswap)
    \<and> (\<forall>v\<in>set siteswap. 0 \<le> v) \<and> (\<forall>b\<in>set balls. flight_ok b)"
proof -
  have 1: "siteswap = parse_siteswap s" "period = int (length siteswap)"
    using assms by (auto simp: initialize_def Let_def split: sum.splits)
  have 2: "siteswap \<noteq> []"
    using assms by (auto simp: initialize_def Let_def num_balls_def split: sum.splits)
  have 3: "\<forall>v\<in>set siteswap. 0 \<le> v" using 1(1) parse_siteswap_range by blast
  obtain n where "balls = make_balls n"
    using assms by (auto simp: initialize_def Let_def split: sum.splits)
  then have 4: "\<forall>b\<in>set balls. flight_ok b"
    by (auto simp: make_balls_def Ball_flight_ok)
  show ?thesis using 1 2 3 4 by simp
qed

lemma reachable_ok:
  assumes "initialize s = Inr (siteswap, period, balls)" "b0 \<in> set balls"
    and "updates b0 ts siteswap period = Inr b"
  shows "flight_ok b \<and> siteswap \<noteq> [] \<and> period = int (length siteswap)
    \<and> (\<forall>v\<in>set siteswap. 0 \<le> v)"
proof -
  note i = initialize_result [OF assms(1)]
  have "flight_ok b0" using i assms(2) by blast
  then have "flight_ok b" using updates_flight_ok assms(3) i by blast
  then show ?thesis using i by blast
qed

lemma update_next_throw_time:
  assumes "flight_ok b" "update b t siteswap period = Inr b'"
  shows "next_throw_time b \<le> next_throw_time b'
    \<and> (next_throw_time b' = next_throw_time b
        \<or> state b = in_air \<and> state b' = in_hand
          \<and> (\<exists>f. flight b = Some f \<and> next_throw_time b' = start_time f + flight_time f))"
proof (cases "state b")
  case in_air
  then show ?thesis
    using assms
    by (auto simp: update_def Let_def flight_ok_def throw_delay_def
        split: option.splits if_splits)
next
  case in_hand
  show ?thesis
  proof (cases "next_throw_time b + throw_delay \<le> t")
    case True
    then have "throw b t siteswap period = Inr b'"
      using assms(2) in_hand by (simp add: held_update_cases)
    then show ?thesis using throw_Inr thrown_fields(3) by fastforce
  next
    case False
    then show ?thesis using assms(2) in_hand by (auto simp: held_update_cases)
  qed
qed

lemma updates_next_throw_time:
  assumes "\<forall>v\<in>set siteswap. 0 \<le> v"
  shows "flight_ok b \<Longrightarrow> updates b ts siteswap period = Inr b'
    \<Longrightarrow> next_throw_time b \<le> next_throw_time b'"
proof (induction ts arbitrary: b)
  case Nil
  then show ?case by simp
next
  case (Cons t ts)
  then obtain b1 where 1: "update b t siteswap period = Inr b1"
    and 2: "updates b1 ts siteswap period = Inr b'"
    by (auto split: sum.splits)
  have "flight_ok b1" using update_flight_ok [OF Cons.prems(1) assms 1] .
  then have "next_throw_time b1 \<le> next_throw_time b'" using Cons.IH 2 by simp
  moreover have "next_throw_time b \<le> next_throw_time b1"
    using update_next_throw_time [OF Cons.prems(1) 1] by simp
  ultimately show ?case by simp
qed

text \<open>
  C9: the scheduled throw time of a ball never decreases. For a ball reached from an initial
  ball by any sequence of updates, at any times in any order, one more update and any further
  updates leave it at least as large; an update changes it only at a catch, to the launch
  time plus the flight time.
\<close>

theorem next_throw_time_monotone:
  assumes "initialize s = Inr (siteswap, period, balls)" "b0 \<in> set balls"
    and "updates b0 ts siteswap period = Inr b"
    and "update b t siteswap period = Inr b1"
    and "updates b1 us siteswap period = Inr b2"
  shows "next_throw_time b0 \<le> next_throw_time b
    \<and> next_throw_time b \<le> next_throw_time b1
    \<and> next_throw_time b1 \<le> next_throw_time b2
    \<and> (next_throw_time b1 = next_throw_time b
        \<or> state b = in_air \<and> state b1 = in_hand
          \<and> (\<exists>f. flight b = Some f \<and> next_throw_time b1 = start_time f + flight_time f))"
proof -
  note i = initialize_result [OF assms(1)]
  note r = reachable_ok [OF assms(1,2,3)]
  have 0: "flight_ok b0" using i assms(2) by blast
  have nn: "\<forall>v\<in>set siteswap. 0 \<le> v" using r by simp
  have 1: "flight_ok b1" using update_flight_ok [OF _ nn assms(4)] r by simp
  show ?thesis
    using updates_next_throw_time [OF nn 0 assms(3)]
      update_next_throw_time [OF _ assms(4)] r
      updates_next_throw_time [OF nn 1 assms(5)]
    by simp
qed

lemmas eval_defs =
  update_def throw_def Let_def py_round_def py_index_def T_beat_def g_def throw_delay_def
  np_div_def Ball_init_def arr_def flight_pos_def

lemma initialize_1: "initialize ''1'' = Inr ([1], 1, [Ball_init 0 0 R])"
  by (simp add: initialize_def parse_siteswap_def isdigit_def digit_value_def num_balls_def
      py_int_def make_balls_def)

theorem next_throw_time_monotone_witness:
  "updates (Ball_init 0 0 R) [1 / 4] [1] 1 =
     Inr \<lparr>ball_id = 0, next_throw_time = 0, hand = R, state = in_air, pos = (Fin 1, Fin 0),
          flight = Some \<lparr>start_time = 1 / 4, flight_time = 1 / 2, catch_time = 3 / 4,
            start_pos = (1, 0), vx = Fin (- 4), vy = 49 / 20, dest_hand = L\<rparr>\<rparr>
   \<and> update \<lparr>ball_id = 0, next_throw_time = 0, hand = R, state = in_air, pos = (Fin 1, Fin 0),
          flight = Some \<lparr>start_time = 1 / 4, flight_time = 1 / 2, catch_time = 3 / 4,
            start_pos = (1, 0), vx = Fin (- 4), vy = 49 / 20, dest_hand = L\<rparr>\<rparr> 5 [1] 1 =
     Inr \<lparr>ball_id = 0, next_throw_time = 3 / 4, hand = L, state = in_hand,
          pos = (Fin (- 1), Fin 0),
          flight = Some \<lparr>start_time = 1 / 4, flight_time = 1 / 2, catch_time = 3 / 4,
            start_pos = (1, 0), vx = Fin (- 4), vy = 49 / 20, dest_hand = L\<rparr>\<rparr>
   \<and> (0::real) \<le> 3 / 4"
  using next_throw_time_monotone [OF initialize_1, of "Ball_init 0 0 R" "[1 / 4]"
      "\<lparr>ball_id = 0, next_throw_time = 0, hand = R, state = in_air, pos = (Fin 1, Fin 0),
          flight = Some \<lparr>start_time = 1 / 4, flight_time = 1 / 2, catch_time = 3 / 4,
            start_pos = (1, 0), vx = Fin (- 4), vy = 49 / 20, dest_hand = L\<rparr>\<rparr>"
      5
      "\<lparr>ball_id = 0, next_throw_time = 3 / 4, hand = L, state = in_hand,
          pos = (Fin (- 1), Fin 0),
          flight = Some \<lparr>start_time = 1 / 4, flight_time = 1 / 2, catch_time = 3 / 4,
            start_pos = (1, 0), vx = Fin (- 4), vy = 49 / 20, dest_hand = L\<rparr>\<rparr>"
      "[]"
      "\<lparr>ball_id = 0, next_throw_time = 3 / 4, hand = L, state = in_hand,
          pos = (Fin (- 1), Fin 0),
          flight = Some \<lparr>start_time = 1 / 4, flight_time = 1 / 2, catch_time = 3 / 4,
            start_pos = (1, 0), vx = Fin (- 4), vy = 49 / 20, dest_hand = L\<rparr>\<rparr>"]
  by (simp add: eval_defs)

text \<open>
  C1 fails on the code. For the pattern \<open>40\<close> the second ball is due at beat 1, whose
  throw value is 0: in the frame at simulation time 0.76 it is thrown with flight time 0,
  and the division that computes the horizontal velocity is 0.0 / 0.0, giving nan.
\<close>

theorem zero_throw_divides_by_zero:
  "initialize ''40'' = Inr ([4, 0], 2, [Ball_init 0 0 R, Ball_init 1 (1 / 2) L])
   \<and> updates (Ball_init 1 (1 / 2) L) (frame_times 37) [4, 0] 2 = Inr (Ball_init 1 (1 / 2) L)
   \<and> update (Ball_init 1 (1 / 2) L) (38 * dt) [4, 0] 2 =
       Inr \<lparr>ball_id = 1, next_throw_time = 1 / 2, hand = L, state = in_air,
            pos = (Fin (- 1), Fin 0),
            flight = Some \<lparr>start_time = 19 / 25, flight_time = 0, catch_time = 19 / 25,
              start_pos = (- 1, 0), vx = NaN, vy = 0, dest_hand = L\<rparr>\<rparr>
   \<and> np_div (fst (hand_positions L) - fst (hand_positions L)) 0 = NaN"
  by code_simp

text \<open>
  C4: a throw uses the beat nearest to the scheduled throw time divided by the beat
  duration (at distance at most one half, not the truncation), looks the throw value up at
  that beat modulo the period, and sets the flight time to the throw value times the beat
  duration; two held balls with the same scheduled throw time get the same flight time,
  whatever their release times.
\<close>

theorem throw_beat_and_flight_time:
  assumes "siteswap \<noteq> []" "period = int (length siteswap)"
    and "state b = in_hand" "next_throw_time b + throw_delay \<le> t"
    and "state c = in_hand" "next_throw_time c = next_throw_time b"
    and "next_throw_time c + throw_delay \<le> u"
  shows "\<exists>b' f c' f'. update b t siteswap period = Inr b' \<and> flight b' = Some f
    \<and> flight_time f
        = of_int (siteswap ! nat (py_round (next_throw_time b / T_beat) mod period)) * T_beat
    \<and> \<bar>of_int (py_round (next_throw_time b / T_beat)) - next_throw_time b / T_beat\<bar> \<le> 1 / 2
    \<and> update c u siteswap period = Inr c' \<and> flight c' = Some f'
    \<and> flight_time f' = flight_time f"
proof -
  let ?v = "siteswap ! nat (py_round (next_throw_time b / T_beat) mod period)"
  have 1: "update b t siteswap period = Inr (thrown b t ?v)"
    using assms(3,4) by (simp add: held_update_cases throw_eq [OF assms(1,2)])
  have 2: "update c u siteswap period = Inr (thrown c u ?v)"
    using assms(5,6,7) by (simp add: held_update_cases throw_eq [OF assms(1,2)])
  obtain f where f: "flight (thrown b t ?v) = Some f" "flight_time f = of_int ?v * T_beat"
    using thrown_flight [of b t ?v] by blast
  obtain f' where f': "flight (thrown c u ?v) = Some f'" "flight_time f' = of_int ?v * T_beat"
    using thrown_flight [of c u ?v] by blast
  show ?thesis using 1 2 f f' py_round_nearest by simp
qed

theorem throw_beat_and_flight_time_witness:
  "\<exists>b' f c' f'. update (Ball_init 1 (2 / 5) L) (3 / 4) [5, 1] 2 = Inr b' \<and> flight b' = Some f
    \<and> flight_time f = 1 / 2 \<and> py_round ((2 / 5) / T_beat) = 1
    \<and> update (Ball_init 7 (2 / 5) R) 9 [5, 1] 2 = Inr c' \<and> flight c' = Some f'
    \<and> flight_time f' = 1 / 2"
  using throw_beat_and_flight_time [of "[5, 1]" 2 "Ball_init 1 (2 / 5) L" "3 / 4"
      "Ball_init 7 (2 / 5) R" 9]
  by (auto simp add: Ball_init_def throw_delay_def py_round_def T_beat_def)

lemma in_air_update_cases:
  assumes "state b = in_air" "flight b = Some f"
  shows "update b t siteswap period =
    (if t - start_time f < flight_time f then Inr (b\<lparr>pos := flight_pos f (t - start_time f)\<rparr>)
     else Inr (b\<lparr>state := in_hand, hand := dest_hand f,
                pos := arr (hand_positions (dest_hand f)),
                next_throw_time := catch_time f\<rparr>))"
  using assms by (simp add: update_def Let_def)

lemma flight_ok_in_air:
  assumes "flight_ok b" "state b = in_air"
  shows "\<exists>f. flight b = Some f \<and> catch_time f = start_time f + flight_time f"
  using assms by (cases "flight b") (simp_all add: flight_ok_def)

lemma updates_in_flight:
  assumes "flight b = Some f" "\<forall>u\<in>set us. u - start_time f < flight_time f"
  shows "state b = in_air \<Longrightarrow>
    \<exists>b'. updates b us siteswap period = Inr b' \<and> state b' = in_air \<and> hand b' = hand b
      \<and> flight b' = Some f \<and> next_throw_time b' = next_throw_time b"
  using assms
proof (induction us arbitrary: b)
  case Nil
  then show ?case by simp
next
  case (Cons u us)
  let ?b1 = "b\<lparr>pos := flight_pos f (u - start_time f)\<rparr>"
  have 1: "update b u siteswap period = Inr ?b1"
    using Cons.prems by (simp add: in_air_update_cases)
  have "\<exists>b'. updates ?b1 us siteswap period = Inr b' \<and> state b' = in_air
      \<and> hand b' = hand ?b1 \<and> flight b' = Some f \<and> next_throw_time b' = next_throw_time ?b1"
    using Cons.prems by (intro Cons.IH) simp_all
  then show ?case using 1 by simp
qed

text \<open>
  C5: a throw goes to the opposite hand when the throw value is odd and to the same hand
  when it is even; after an even throw the hand is unchanged through every update of the
  flight and after the catch that ends it.
\<close>

theorem throw_destination_hand:
  assumes "siteswap \<noteq> []" "period = int (length siteswap)"
    and "state b = in_hand" "next_throw_time b + throw_delay \<le> t"
    and "v = siteswap ! nat (py_round (next_throw_time b / T_beat) mod period)"
  shows "\<exists>b1 f. update b t siteswap period = Inr b1 \<and> state b1 = in_air
    \<and> flight b1 = Some f \<and> hand b1 = hand b
    \<and> dest_hand f = (if odd v then (if hand b = R then L else R) else hand b)
    \<and> (even v \<and> (\<forall>u\<in>set us. u - t < of_int v * T_beat) \<and> of_int v * T_beat \<le> tc - t
        \<longrightarrow> (\<exists>b2 b3. updates b1 us siteswap period = Inr b2 \<and> state b2 = in_air
              \<and> hand b2 = hand b
              \<and> update b2 tc siteswap period = Inr b3 \<and> state b3 = in_hand
              \<and> hand b3 = hand b))"
proof -
  have 1: "update b t siteswap period = Inr (thrown b t v)"
    using assms(3,4,5) by (simp add: held_update_cases throw_eq [OF assms(1,2)])
  obtain f where f: "flight (thrown b t v) = Some f" "start_time f = t"
    "flight_time f = of_int v * T_beat"
    "dest_hand f = (if odd v then (if hand b = R then L else R) else hand b)"
    using thrown_flight [of b t v] by blast
  have 2: "\<exists>b2 b3. updates (thrown b t v) us siteswap period = Inr b2 \<and> state b2 = in_air
      \<and> hand b2 = hand b \<and> update b2 tc siteswap period = Inr b3 \<and> state b3 = in_hand
      \<and> hand b3 = hand b"
    if e: "even v" and u: "\<forall>u\<in>set us. u - t < of_int v * T_beat"
      and c: "of_int v * T_beat \<le> tc - t"
  proof -
    have "\<forall>u\<in>set us. u - start_time f < flight_time f" using u f by simp
    then obtain b2 where b2: "updates (thrown b t v) us siteswap period = Inr b2"
      "state b2 = in_air" "hand b2 = hand (thrown b t v)" "flight b2 = Some f"
      using updates_in_flight [OF f(1), of us siteswap period] thrown_fields(1) by blast
    have "\<not> tc - start_time f < flight_time f" using c f by simp
    then have "update b2 tc siteswap period =
        Inr (b2\<lparr>state := in_hand, hand := dest_hand f,
               pos := arr (hand_positions (dest_hand f)), next_throw_time := catch_time f\<rparr>)"
      using b2 by (simp add: in_air_update_cases)
    then show ?thesis using b2 e f(4) by (simp add: thrown_fields)
  qed
  show ?thesis using 1 f 2 by (auto simp: thrown_fields)
qed

theorem throw_destination_hand_witness:
  "(\<exists>b1 f. update (Ball_init 0 0 R) (1 / 4) [4, 0] 2 = Inr b1 \<and> flight b1 = Some f
      \<and> dest_hand f = R
      \<and> (\<exists>b2 b3. updates b1 [1, 2] [4, 0] 2 = Inr b2 \<and> state b2 = in_air \<and> hand b2 = R
            \<and> update b2 (9 / 4) [4, 0] 2 = Inr b3 \<and> state b3 = in_hand \<and> hand b3 = R))
   \<and> (\<exists>b1 f. update (Ball_init 0 0 R) (1 / 4) [5, 1] 2 = Inr b1 \<and> flight b1 = Some f
      \<and> dest_hand f = L)"
  using throw_destination_hand [of "[4, 0]" 2 "Ball_init 0 0 R" "1 / 4" 4 "[1, 2]" "9 / 4"]
    throw_destination_hand [of "[5, 1]" 2 "Ball_init 0 0 R" "1 / 4" 5 "[]" 3]
  by (auto simp add: Ball_init_def throw_delay_def py_round_def T_beat_def)

text \<open>
  C6: for a reachable ball in the air, an update at a time when the elapsed flight has
  reached the flight time catches the ball: it is held, in the destination hand, at exactly
  that hand's position, and its scheduled throw time is the launch time plus the flight
  time.
\<close>

theorem catch_at_flight_end:
  assumes "initialize s = Inr (siteswap, period, balls)" "b0 \<in> set balls"
    and "updates b0 ts siteswap period = Inr b"
    and "state b = in_air"
  shows "\<exists>f. flight b = Some f
    \<and> (flight_time f \<le> t - start_time f \<longrightarrow>
        (\<exists>b'. update b t siteswap period = Inr b' \<and> state b' = in_hand
           \<and> hand b' = dest_hand f \<and> pos b' = arr (hand_positions (dest_hand f))
           \<and> next_throw_time b' = start_time f + flight_time f))"
proof -
  have "flight_ok b" using reachable_ok [OF assms(1,2,3)] by simp
  then obtain f where f: "flight b = Some f" "catch_time f = start_time f + flight_time f"
    using flight_ok_in_air assms(4) by blast
  show ?thesis using f assms(4) by (simp add: in_air_update_cases)
qed

theorem catch_at_flight_end_witness:
  "updates (Ball_init 0 0 R) [1 / 4] [1] 1 =
     Inr \<lparr>ball_id = 0, next_throw_time = 0, hand = R, state = in_air, pos = (Fin 1, Fin 0),
          flight = Some \<lparr>start_time = 1 / 4, flight_time = 1 / 2, catch_time = 3 / 4,
            start_pos = (1, 0), vx = Fin (- 4), vy = 49 / 20, dest_hand = L\<rparr>\<rparr>
   \<and> (\<exists>b'. update \<lparr>ball_id = 0, next_throw_time = 0, hand = R, state = in_air,
          pos = (Fin 1, Fin 0),
          flight = Some \<lparr>start_time = 1 / 4, flight_time = 1 / 2, catch_time = 3 / 4,
            start_pos = (1, 0), vx = Fin (- 4), vy = 49 / 20, dest_hand = L\<rparr>\<rparr> 5 [1] 1 = Inr b'
        \<and> state b' = in_hand \<and> hand b' = L \<and> pos b' = (Fin (- 1), Fin 0)
        \<and> next_throw_time b' = 3 / 4)"
  using catch_at_flight_end [OF initialize_1, of "Ball_init 0 0 R" "[1 / 4]"
      "\<lparr>ball_id = 0, next_throw_time = 0, hand = R, state = in_air, pos = (Fin 1, Fin 0),
          flight = Some \<lparr>start_time = 1 / 4, flight_time = 1 / 2, catch_time = 3 / 4,
            start_pos = (1, 0), vx = Fin (- 4), vy = 49 / 20, dest_hand = L\<rparr>\<rparr>" 5]
  by (auto simp add: eval_defs)

lemma hand_positions_y: "snd (hand_positions h) = 0"
  by (cases h) simp_all

text \<open>
  C8: for a throw with positive flight time \<open>T\<close>, the horizontal velocity is the
  horizontal distance between the two hands divided by \<open>T\<close>, the vertical velocity is
  \<open>0.5 * g * T\<close>, and the projectile position the update computes starts at the source
  hand and is, at elapsed time \<open>T\<close>, the destination hand's position, both at height 0.
\<close>

theorem launch_boundary_conditions:
  assumes "siteswap \<noteq> []" "period = int (length siteswap)"
    and "state b = in_hand" "next_throw_time b + throw_delay \<le> t"
    and "update b t siteswap period = Inr b'" "flight b' = Some f"
    and "0 < flight_time f"
  shows "start_pos f = hand_positions (hand b)
    \<and> vx f = Fin ((fst (hand_positions (dest_hand f)) - fst (hand_positions (hand b)))
                   / flight_time f)
    \<and> vy f = (1 / 2) * g * flight_time f
    \<and> flight_pos f 0 = arr (hand_positions (hand b))
    \<and> flight_pos f (flight_time f) = arr (hand_positions (dest_hand f))
    \<and> snd (hand_positions (hand b)) = 0 \<and> snd (hand_positions (dest_hand f)) = 0"
proof -
  let ?v = "siteswap ! nat (py_round (next_throw_time b / T_beat) mod period)"
  let ?T = "flight_time f"
  have "b' = thrown b t ?v"
    using assms(3,4,5) by (simp add: held_update_cases throw_eq [OF assms(1,2)])
  then have f: "start_pos f = hand_positions (hand b)"
    "vx f = np_div (fst (hand_positions (dest_hand f)) - fst (hand_positions (hand b))) ?T"
    "vy f = (1 / 2) * g * ?T"
    using thrown_flight [of b t ?v] assms(6) by auto
  have T: "?T \<noteq> 0" using assms(7) by simp
  have vx: "vx f = Fin ((fst (hand_positions (dest_hand f)) - fst (hand_positions (hand b))) / ?T)"
    using f(2) T by (simp add: np_div_def)
  have p0: "flight_pos f 0 = arr (hand_positions (hand b))"
    by (simp add: flight_pos_def vx f(1) arr_def)
  have x: "np_add (fst (start_pos f)) (np_mul (vx f) ?T) = Fin (fst (hand_positions (dest_hand f)))"
    using T by (simp add: vx f(1))
  have y: "snd (start_pos f) + vy f * ?T - (1 / 2) * g * ?T\<^sup>2 = 0"
    by (simp add: f(1,3) hand_positions_y power2_eq_square)
  have pT: "flight_pos f ?T = arr (hand_positions (dest_hand f))"
    unfolding flight_pos_def arr_def x y by (simp add: hand_positions_y)
  show ?thesis using f(1,3) vx p0 pT by (simp add: hand_positions_y)
qed

theorem launch_boundary_conditions_witness:
  "update (Ball_init 0 0 R) (1 / 4) [3] 1 =
     Inr \<lparr>ball_id = 0, next_throw_time = 0, hand = R, state = in_air, pos = (Fin 1, Fin 0),
          flight = Some \<lparr>start_time = 1 / 4, flight_time = 3 / 2, catch_time = 7 / 4,
            start_pos = (1, 0), vx = Fin (- 4 / 3), vy = 147 / 20, dest_hand = L\<rparr>\<rparr>
   \<and> flight_pos \<lparr>start_time = 1 / 4, flight_time = 3 / 2, catch_time = 7 / 4,
            start_pos = (1, 0), vx = Fin (- 4 / 3), vy = 147 / 20, dest_hand = L\<rparr> (3 / 2)
       = (Fin (- 1), Fin 0)"
  using launch_boundary_conditions [of "[3]" 1 "Ball_init 0 0 R" "1 / 4"
      "\<lparr>ball_id = 0, next_throw_time = 0, hand = R, state = in_air, pos = (Fin 1, Fin 0),
          flight = Some \<lparr>start_time = 1 / 4, flight_time = 3 / 2, catch_time = 7 / 4,
            start_pos = (1, 0), vx = Fin (- 4 / 3), vy = 147 / 20, dest_hand = L\<rparr>\<rparr>"
      "\<lparr>start_time = 1 / 4, flight_time = 3 / 2, catch_time = 7 / 4,
            start_pos = (1, 0), vx = Fin (- 4 / 3), vy = 147 / 20, dest_hand = L\<rparr>"]
  by (simp add: update_def throw_def Let_def py_round_def py_index_def T_beat_def g_def
      throw_delay_def np_div_def Ball_init_def arr_def)

text \<open>
  C10: one call of \<open>update\<close> makes at most one transition. A call that leaves the state as
  it was changes nothing but the position; a call that catches the ball leaves it held with
  its flight attributes untouched, even when the release time is already past, and the
  next call (at the same time) throws it if and only if the release time is past.
\<close>

theorem update_single_transition:
  assumes "initialize s = Inr (siteswap, period, balls)" "b0 \<in> set balls"
    and "updates b0 ts siteswap period = Inr b"
    and "update b t siteswap period = Inr b'"
  shows "(state b' = state b \<longrightarrow> b' = b\<lparr>pos := pos b'\<rparr>)
    \<and> (state b = in_air \<and> (\<exists>f. flight b = Some f \<and> flight_time f \<le> t - start_time f)
        \<longrightarrow> state b' = in_hand \<and> flight b' = flight b
          \<and> (\<exists>b''. update b' t siteswap period = Inr b''
                \<and> (state b'' = in_air \<longleftrightarrow> next_throw_time b' + throw_delay \<le> t)))"
proof -
  note r = reachable_ok [OF assms(1,2,3)]
  have A: "state b' = state b \<longrightarrow> b' = b\<lparr>pos := pos b'\<rparr>"
  proof (cases "state b")
    case in_air
    then obtain f where f: "flight b = Some f" using flight_ok_in_air r by blast
    show ?thesis using assms(4) in_air f
      by (auto simp: in_air_update_cases split: if_splits)
  next
    case in_hand
    show ?thesis
    proof (cases "next_throw_time b + throw_delay \<le> t")
      case True
      then have "throw b t siteswap period = Inr b'"
        using assms(4) in_hand by (simp add: held_update_cases)
      then have "state b' = in_air" using throw_Inr thrown_fields(1) by fastforce
      then show ?thesis using in_hand by simp
    next
      case False
      then show ?thesis using assms(4) in_hand by (auto simp: held_update_cases)
    qed
  qed
  have B: "state b' = in_hand \<and> flight b' = flight b
      \<and> (\<exists>b''. update b' t siteswap period = Inr b''
            \<and> (state b'' = in_air \<longleftrightarrow> next_throw_time b' + throw_delay \<le> t))"
    if a: "state b = in_air" and c: "\<exists>f. flight b = Some f \<and> flight_time f \<le> t - start_time f"
  proof -
    obtain f where f: "flight b = Some f" "flight_time f \<le> t - start_time f"
      using c by blast
    have b': "b' = b\<lparr>state := in_hand, hand := dest_hand f,
        pos := arr (hand_positions (dest_hand f)), next_throw_time := catch_time f\<rparr>"
      using assms(4) a f by (simp add: in_air_update_cases)
    then have h: "state b' = in_hand" "flight b' = flight b" by simp_all
    have "\<exists>b''. update b' t siteswap period = Inr b''
        \<and> (state b'' = in_air \<longleftrightarrow> next_throw_time b' + throw_delay \<le> t)"
    proof (cases "next_throw_time b' + throw_delay \<le> t")
      case True
      then show ?thesis using h(1) r
        by (simp add: held_update_cases throw_eq thrown_fields)
    next
      case False
      then show ?thesis using h(1) by (simp add: held_update_cases)
    qed
    then show ?thesis using h by simp
  qed
  show ?thesis using A B by blast
qed

theorem update_single_transition_witness:
  "update \<lparr>ball_id = 0, next_throw_time = 0, hand = R, state = in_air, pos = (Fin 1, Fin 0),
          flight = Some \<lparr>start_time = 1 / 4, flight_time = 1 / 2, catch_time = 3 / 4,
            start_pos = (1, 0), vx = Fin (- 4), vy = 49 / 20, dest_hand = L\<rparr>\<rparr> 5 [1] 1 =
     Inr \<lparr>ball_id = 0, next_throw_time = 3 / 4, hand = L, state = in_hand,
          pos = (Fin (- 1), Fin 0),
          flight = Some \<lparr>start_time = 1 / 4, flight_time = 1 / 2, catch_time = 3 / 4,
            start_pos = (1, 0), vx = Fin (- 4), vy = 49 / 20, dest_hand = L\<rparr>\<rparr>
   \<and> 3 / 4 + throw_delay \<le> 5
   \<and> (\<exists>b''. update \<lparr>ball_id = 0, next_throw_time = 3 / 4, hand = L, state = in_hand,
          pos = (Fin (- 1), Fin 0),
          flight = Some \<lparr>start_time = 1 / 4, flight_time = 1 / 2, catch_time = 3 / 4,
            start_pos = (1, 0), vx = Fin (- 4), vy = 49 / 20, dest_hand = L\<rparr>\<rparr> 5 [1] 1 = Inr b''
        \<and> state b'' = in_air)"
  using update_single_transition [OF initialize_1, of "Ball_init 0 0 R" "[1 / 4]"
      "\<lparr>ball_id = 0, next_throw_time = 0, hand = R, state = in_air, pos = (Fin 1, Fin 0),
          flight = Some \<lparr>start_time = 1 / 4, flight_time = 1 / 2, catch_time = 3 / 4,
            start_pos = (1, 0), vx = Fin (- 4), vy = 49 / 20, dest_hand = L\<rparr>\<rparr>"
      5
      "\<lparr>ball_id = 0, next_throw_time = 3 / 4, hand = L, state = in_hand,
          pos = (Fin (- 1), Fin 0),
          flight = Some \<lparr>start_time = 1 / 4, flight_time = 1 / 2, catch_time = 3 / 4,
            start_pos = (1, 0), vx = Fin (- 4), vy = 49 / 20, dest_hand = L\<rparr>\<rparr>"]
  by (auto simp add: eval_defs)

end
